theory Spec2Isabelle
  imports Main
begin

section \<open>Values of the header language\<close>

text \<open>
  The loader (\<^verbatim>\<open>src/agents/custom-agent-loader.js\<close>) is untyped JavaScript: whatever the
  YAML parser returns for a header flows unchecked into the agent definition. The values
  are therefore modelled as JavaScript values. Numbers carry integers only (no claim
  depends on fractions or NaN). Strings are ASCII character lists.
\<close>

datatype jsval =
    JUndefined
  | JNull
  | JBool bool
  | JNum int
  | JStr string
  | JArr "jsval list"
  | JObj "(string \<times> jsval) list"

text \<open>Truthiness, as tested by \<^verbatim>\<open>!x\<close>, \<^verbatim>\<open>x || y\<close> and \<^verbatim>\<open>if (x)\<close>.\<close>

fun truthy :: "jsval \<Rightarrow> bool" where
  "truthy JUndefined = False"
| "truthy JNull = False"
| "truthy (JBool b) = b"
| "truthy (JNum n) = (n \<noteq> 0)"
| "truthy (JStr s) = (s \<noteq> [])"
| "truthy (JArr xs) = True"
| "truthy (JObj kvs) = True"

text \<open>\<^verbatim>\<open>a || b\<close>\<close>

definition jsOr :: "jsval \<Rightarrow> jsval \<Rightarrow> jsval" where
  "jsOr a b = (if truthy a then a else b)"

text \<open>
  Property read \<^verbatim>\<open>v.k\<close> and \<^verbatim>\<open>v?.k\<close> for the keys the loader reads (name, type, color,
  description, capabilities, priority, hooks, metadata, pre, post): none of them is a
  property of a string, number, boolean or array, so only a mapping can answer. The
  source reads \<^verbatim>\<open>v.k\<close> only where \<^verbatim>\<open>v\<close> is truthy and uses \<^verbatim>\<open>?.\<close> otherwise, so the read
  never raises.
\<close>

fun getProp :: "jsval \<Rightarrow> string \<Rightarrow> jsval" where
  "getProp (JObj kvs) k = (case map_of kvs k of Some v \<Rightarrow> v | None \<Rightarrow> JUndefined)"
| "getProp v k = JUndefined"

fun isString :: "jsval \<Rightarrow> bool" where
  "isString (JStr s) = True"
| "isString v = False"

text \<open>\<^verbatim>\<open>Array.isArray(c) ? c : [c]\<close>\<close>

fun asArray :: "jsval \<Rightarrow> jsval list" where
  "asArray (JArr xs) = xs"
| "asArray v = [v]"

text \<open>
  Key equality of a JavaScript \<^verbatim>\<open>Map\<close> and \<^verbatim>\<open>Set\<close> (SameValueZero): primitives are equal
  by value, arrays and objects by identity. Every array or object that reaches a
  map key here is freshly built by one call of the parser, so two of them are never
  the same object.
\<close>

fun isPrimitive :: "jsval \<Rightarrow> bool" where
  "isPrimitive (JArr xs) = False"
| "isPrimitive (JObj kvs) = False"
| "isPrimitive v = True"

definition sameValueZero :: "jsval \<Rightarrow> jsval \<Rightarrow> bool" where
  "sameValueZero a b = (isPrimitive a \<and> a = b)"

section \<open>String helpers\<close>

definition LF :: char where "LF = CHR 0x0A"
definition CR :: char where "CR = CHR 0x0D"
definition BACKSLASH :: char where "BACKSLASH = CHR 0x5C"

text \<open>\<^verbatim>\<open>String.prototype.toLowerCase\<close> on ASCII text.\<close>

definition lowerChar :: "char \<Rightarrow> char" where
  "lowerChar c =
     (case map_of (zip ''ABCDEFGHIJKLMNOPQRSTUVWXYZ'' ''abcdefghijklmnopqrstuvwxyz'') c of
        Some l \<Rightarrow> l
      | None \<Rightarrow> c)"

definition toLowerCase :: "string \<Rightarrow> string" where
  "toLowerCase s = map lowerChar s"

fun startsWith :: "string \<Rightarrow> string \<Rightarrow> bool" where
  "startsWith s [] = True"
| "startsWith [] (p # ps) = False"
| "startsWith (c # cs) (p # ps) = (c = p \<and> startsWith cs ps)"

text \<open>\<^verbatim>\<open>s.includes(t)\<close>\<close>

fun includesStr :: "string \<Rightarrow> string \<Rightarrow> bool" where
  "includesStr [] t = (t = [])"
| "includesStr (c # cs) t = (startsWith (c # cs) t \<or> includesStr cs t)"

text \<open>The white space of \<^verbatim>\<open>\s\<close> and of \<^verbatim>\<open>trim\<close> within ASCII: tab, LF, VT, FF, CR, space.\<close>

definition isSpace :: "char \<Rightarrow> bool" where
  "isSpace c = (c \<in> set [CHR 0x09, CHR 0x0A, CHR 0x0B, CHR 0x0C, CHR 0x0D, CHR 0x20])"

definition trim :: "string \<Rightarrow> string" where
  "trim s = rev (dropWhile isSpace (rev (dropWhile isSpace s)))"

text \<open>\<^verbatim>\<open>s.replace(/\s+/g, '-')\<close>: every maximal run of white space becomes one hyphen.\<close>

fun hyphenateFrom :: "bool \<Rightarrow> string \<Rightarrow> string" where
  "hyphenateFrom inRun [] = []"
| "hyphenateFrom inRun (c # cs) =
     (if isSpace c
      then (if inRun then hyphenateFrom True cs else CHR ''-'' # hyphenateFrom True cs)
      else c # hyphenateFrom False cs)"

definition hyphenate :: "string \<Rightarrow> string" where
  "hyphenate s = hyphenateFrom False s"

text \<open>
  \<^verbatim>\<open>s.replace(pat, rep)\<close> with a string pattern: the first occurrence only. The one
  replacement text the loader passes is the empty string, so the dollar patterns of
  the replacement are not modelled.
\<close>

fun replaceFirst :: "string \<Rightarrow> string \<Rightarrow> string \<Rightarrow> string" where
  "replaceFirst [] pat rep = (if pat = [] then rep else [])"
| "replaceFirst (c # cs) pat rep =
     (if startsWith (c # cs) pat then rep @ drop (length pat) (c # cs)
      else c # replaceFirst cs pat rep)"

definition isSep :: "char \<Rightarrow> bool" where
  "isSep c = (c = CHR ''/'' \<or> c = BACKSLASH)"

text \<open>\<^verbatim>\<open>s.replace(/^[\/\\]/, '')\<close>\<close>

fun stripLeadingSep :: "string \<Rightarrow> string" where
  "stripLeadingSep [] = []"
| "stripLeadingSep (c # cs) = (if isSep c then cs else c # cs)"

text \<open>\<^verbatim>\<open>s.split(/[\/\\]/)\<close>: one part more than there are separators.\<close>

fun splitSep :: "string \<Rightarrow> string list" where
  "splitSep [] = [[]]"
| "splitSep (c # cs) =
     (if isSep c then [] # splitSep cs
      else (case splitSep cs of p # ps \<Rightarrow> (c # p) # ps | [] \<Rightarrow> [[c]]))"

section \<open>Paths (node:path, POSIX)\<close>



text \<open>
  \<^verbatim>\<open>basename(p)\<close> and \<^verbatim>\<open>basename(p, ext)\<close>: the last component of the path, trailing
  slashes dropped; the extension is cut when the component ends with it and is not
  the extension alone. (Node's loop agrees with this on every path that does not end
  in a slash.)
\<close>

definition lastComponent :: "string \<Rightarrow> string" where
  "lastComponent p =
     rev (takeWhile (\<lambda>c. c \<noteq> CHR ''/'') (dropWhile (\<lambda>c. c = CHR ''/'') (rev p)))"

definition basename :: "string \<Rightarrow> string" where
  "basename p = lastComponent p"

definition basenameExt :: "string \<Rightarrow> string \<Rightarrow> string" where
  "basenameExt p ext =
     (if ext \<noteq> [] \<and> ext = p then []
      else (let c = lastComponent p in
            if ext \<noteq> [] \<and> length ext < length c \<and> startsWith (rev c) (rev ext)
            then take (length c - length ext) c
            else c))"

section \<open>Frontmatter Parser\<close>

text \<open>
  The match of \<^verbatim>\<open>/^---\r?\n([\s\S]*?)\r?\n---\r?\n([\s\S]*)$/\<close>. \<open>eol\<close> consumes
  \<^verbatim>\<open>\r?\n\<close>; \<open>closing\<close> consumes \<^verbatim>\<open>\r?\n---\r?\n\<close>; the lazy first group grows one
  character at a time until the closing delimiter matches, and the second group takes
  the rest.
\<close>

fun eol :: "string \<Rightarrow> string option" where
  "eol [] = None"
| "eol [c] = (if c = LF then Some [] else None)"
| "eol (c # d # r) =
     (if c = CR \<and> d = LF then Some r
      else if c = LF then Some (d # r)
      else None)"

definition closing :: "string \<Rightarrow> string option" where
  "closing s =
     (case eol s of
        None \<Rightarrow> None
      | Some r \<Rightarrow> (if startsWith r ''---'' then eol (drop 3 r) else None))"

fun scanHeader :: "string \<Rightarrow> string \<Rightarrow> (string \<times> string) option" where
  "scanHeader acc [] = None"
| "scanHeader acc (c # cs) =
     (case closing (c # cs) of
        Some body \<Rightarrow> Some (rev acc, body)
      | None \<Rightarrow> scanHeader (c # acc) cs)"

definition matchFrontmatter :: "string \<Rightarrow> (string \<times> string) option" where
  "matchFrontmatter content =
     (if startsWith content ''---''
      then (case eol (drop 3 content) of
              None \<Rightarrow> None
            | Some r \<Rightarrow> scanHeader [] r)
      else None)"

text \<open>
  The YAML parser is an external library: it enters as a parameter that either
  raises (\<open>Inl\<close>, the message) or returns the parsed value.
\<close>

type_synonym yamlParser = "string \<Rightarrow> string + jsval"

text \<open>
  \<^verbatim>\<open>parseFrontmatter(content)\<close>: the pair \<^verbatim>\<open>{ frontmatter, body }\<close>. The only raising call
  is the parser's, inside the \<^verbatim>\<open>try\<close>.
\<close>

definition parseFrontmatter :: "yamlParser \<Rightarrow> string \<Rightarrow> jsval \<times> string" where
  "parseFrontmatter parseYaml content =
     (case matchFrontmatter content of
        None \<Rightarrow> (JNull, content)
      | Some (yamlContent, markdownBody) \<Rightarrow>
          (case parseYaml yamlContent of
             Inl err \<Rightarrow> (JNull, content)
           | Inr frontmatter \<Rightarrow> (frontmatter, trim markdownBody)))"

section \<open>Definition Reader\<close>

text \<open>
  \<^verbatim>\<open>CustomAgentDefinition\<close>. The fields copied from the header keep whatever value the
  header had.
\<close>

record agentDef =
  name :: jsval
  type :: jsval
  color :: jsval
  description :: jsval
  capabilities :: "jsval list"
  priority :: jsval
  hooks :: jsval
  systemPrompt :: string
  sourcePath :: string
  category :: string
  isCustom :: bool

text \<open>
  What the loader reads from outside: the result of \<^verbatim>\<open>getSearchPaths()\<close> and of
  \<^verbatim>\<open>findMarkdownFiles(dir)\<close> on the current disk, \<^verbatim>\<open>existsSync\<close>, \<^verbatim>\<open>readFileSync\<close> (\<open>Inl\<close>
  is the message of the error it raises), the YAML parser, the clock reading of
  \<^verbatim>\<open>Date.now()\<close> in milliseconds, and the collation of \<^verbatim>\<open>localeCompare\<close>. One public
  operation sees one environment.
\<close>

record env =
  getSearchPaths :: "string list"
  findMarkdownFiles :: "string \<Rightarrow> string list"
  existsSync :: "string \<Rightarrow> bool"
  readFileSync :: "string \<Rightarrow> string + string"
  parseYaml :: yamlParser
  dateNow :: int
  localeCompare :: "string \<Rightarrow> string \<Rightarrow> int"

text \<open>
  The fields of \<^verbatim>\<open>CustomAgentLoader\<close>. The cache is a JavaScript \<^verbatim>\<open>Map\<close>, kept as the
  list of its entries in insertion order. \<open>passes\<close> is not a field of the source: it
  counts the runs of \<^verbatim>\<open>loadAgents\<close>, as a scan-counting test double would.
\<close>

record loader =
  agentCache :: "(jsval \<times> agentDef) list"
  lastLoadTime :: int
  searchPaths :: "string list"
  loadErrors :: "string list"
  passes :: nat

definition cacheExpiry :: int where
  "cacheExpiry = 60000"

text \<open>The constructor.\<close>

definition newLoader :: "env \<Rightarrow> loader" where
  "newLoader e =
     \<lparr> agentCache = [], lastLoadTime = 0, searchPaths = getSearchPaths e,
       loadErrors = [], passes = 0 \<rparr>"

text \<open>\<^verbatim>\<open>Map.prototype.get\<close> and \<^verbatim>\<open>Map.prototype.set\<close>.\<close>

fun mapGet :: "(jsval \<times> 'v) list \<Rightarrow> jsval \<Rightarrow> 'v option" where
  "mapGet [] k = None"
| "mapGet ((k', v) # m) k = (if sameValueZero k' k then Some v else mapGet m k)"

fun mapSet :: "(jsval \<times> 'v) list \<Rightarrow> jsval \<Rightarrow> 'v \<Rightarrow> (jsval \<times> 'v) list" where
  "mapSet [] k v = [(k, v)]"
| "mapSet ((k', v') # m) k v =
     (if sameValueZero k' k then (k', v) # m else (k', v') # mapSet m k v)"

text \<open>\<^verbatim>\<open>extractCategory(filePath, baseDir)\<close>\<close>

definition extractCategory :: "string \<Rightarrow> string \<Rightarrow> string" where
  "extractCategory filePath baseDir =
     (let relativePath = stripLeadingSep (replaceFirst filePath baseDir []);
          parts = splitSep relativePath
      in if length parts > 1 then hd parts else ''custom'')"

definition pushError :: "string \<Rightarrow> loader \<Rightarrow> loader" where
  "pushError msg st = st\<lparr>loadErrors := loadErrors st @ [msg]\<rparr>"

text \<open>
  \<^verbatim>\<open>parseAgentFile(filePath, baseDir)\<close>: the definition or \<^verbatim>\<open>null\<close>, and the loader with the
  error pushed. Inside the \<^verbatim>\<open>try\<close> only \<^verbatim>\<open>readFileSync\<close> can raise.
\<close>

definition parseAgentFile :: "env \<Rightarrow> string \<Rightarrow> string \<Rightarrow> loader \<Rightarrow> agentDef option \<times> loader" where
  "parseAgentFile e filePath baseDir st =
     (case readFileSync e filePath of
        Inl errorMsg \<Rightarrow>
          (None, pushError (''Error parsing '' @ filePath @ '': '' @ errorMsg) st)
      | Inr content \<Rightarrow>
          (let (frontmatter, body) = parseFrontmatter (parseYaml e) content in
           if \<not> truthy frontmatter
           then (None, pushError (''No frontmatter found in '' @ filePath) st)
           else
             (let descr = jsOr (getProp frontmatter ''description'')
                            (jsOr (getProp (getProp frontmatter ''metadata'') ''description'')
                               (JStr (''Agent defined in '' @ basename filePath)));
                  caps = jsOr (getProp frontmatter ''capabilities'')
                           (jsOr (getProp (getProp frontmatter ''metadata'') ''capabilities'')
                              (JArr []));
                  nm = jsOr (getProp frontmatter ''name'')
                         (JStr (hyphenate (toLowerCase (basenameExt filePath ''.md''))))
              in if \<not> truthy nm
                 then (None, pushError (''Missing name field in '' @ filePath) st)
                 else
                   (Some \<lparr> name = nm,
                            type = getProp frontmatter ''type'',
                            color = getProp frontmatter ''color'',
                            description = descr,
                            capabilities = asArray caps,
                            priority = jsOr (getProp frontmatter ''priority'') (JStr ''medium''),
                            hooks = getProp frontmatter ''hooks'',
                            systemPrompt = body,
                            sourcePath = filePath,
                            category = extractCategory filePath baseDir,
                            isCustom = includesStr baseDir ''.claude-flow'' \<rparr>,
                    st))))"

section \<open>Agent Registry\<close>

text \<open>
  The body of the inner loop of \<^verbatim>\<open>loadAgents\<close> once a file has given a definition:
  \<^verbatim>\<open>if (!existing || agent.isCustom) this.agentCache.set(agent.name, agent)\<close>.
\<close>

definition storeAgent :: "agentDef \<Rightarrow> (jsval \<times> agentDef) list \<Rightarrow> (jsval \<times> agentDef) list" where
  "storeAgent a cache =
     (case mapGet cache (name a) of
        None \<Rightarrow> mapSet cache (name a) a
      | Some existing \<Rightarrow> (if isCustom a then mapSet cache (name a) a else cache))"

text \<open>The inner loop, over the files of one search path.\<close>

fun loadFiles :: "env \<Rightarrow> string \<Rightarrow> string list \<Rightarrow> loader \<Rightarrow> loader" where
  "loadFiles e searchPath [] st = st"
| "loadFiles e searchPath (filePath # files) st =
     (case parseAgentFile e filePath searchPath st of
        (None, st') \<Rightarrow> loadFiles e searchPath files st'
      | (Some a, st') \<Rightarrow>
          loadFiles e searchPath files (st'\<lparr>agentCache := storeAgent a (agentCache st')\<rparr>))"

text \<open>The outer loop, over the search paths in processing order.\<close>

fun loadPaths :: "env \<Rightarrow> string list \<Rightarrow> loader \<Rightarrow> loader" where
  "loadPaths e [] st = st"
| "loadPaths e (searchPath # rest) st =
     loadPaths e rest (loadFiles e searchPath (findMarkdownFiles e searchPath) st)"

definition loadAgents :: "env \<Rightarrow> loader \<Rightarrow> loader" where
  "loadAgents e st =
     (let st1 = st\<lparr>agentCache := [], loadErrors := [], searchPaths := getSearchPaths e\<rparr>;
          processedPaths = rev (searchPaths st1);
          st2 = loadPaths e processedPaths st1
      in st2\<lparr>lastLoadTime := dateNow e, passes := passes st2 + 1\<rparr>)"

definition needsRefresh :: "env \<Rightarrow> loader \<Rightarrow> bool" where
  "needsRefresh e st = (dateNow e - lastLoadTime st > cacheExpiry)"

definition ensureLoaded :: "env \<Rightarrow> loader \<Rightarrow> loader" where
  "ensureLoaded e st =
     (if agentCache st = [] \<or> needsRefresh e st then loadAgents e st else st)"

text \<open>\<^verbatim>\<open>getAgent(name)\<close>: \<open>None\<close> is \<^verbatim>\<open>null\<close>.\<close>

definition getAgent :: "env \<Rightarrow> jsval \<Rightarrow> loader \<Rightarrow> agentDef option \<times> loader" where
  "getAgent e nm st = (let st' = ensureLoaded e st in (mapGet (agentCache st') nm, st'))"

definition hasAgent :: "env \<Rightarrow> jsval \<Rightarrow> loader \<Rightarrow> bool \<times> loader" where
  "hasAgent e nm st = (let st' = ensureLoaded e st in (mapGet (agentCache st') nm \<noteq> None, st'))"

text \<open>\<^verbatim>\<open>refresh()\<close> and \<^verbatim>\<open>clearCache()\<close>\<close>

definition refresh :: "env \<Rightarrow> loader \<Rightarrow> loader" where
  "refresh e st = loadAgents e (st\<lparr>lastLoadTime := 0\<rparr>)"

definition clearCache :: "loader \<Rightarrow> loader" where
  "clearCache st = st\<lparr>agentCache := [], lastLoadTime := 0, loadErrors := []\<rparr>"


datatype jsError = TypeError

text \<open>
  Conversion of a value to a string, as \<^verbatim>\<open>localeCompare\<close> applies it to its argument:
  decimal digits for a number, the elements joined by commas for an array (an element
  that is \<^verbatim>\<open>null\<close> or \<^verbatim>\<open>undefined\<close> gives the empty string), a fixed text for an object.
\<close>

definition digitChar :: "nat \<Rightarrow> char" where
  "digitChar d = ''0123456789'' ! d"

function showNat :: "nat \<Rightarrow> string" where
  "showNat n = (if n < 10 then [digitChar n] else showNat (n div 10) @ [digitChar (n mod 10)])"
  by pat_completeness auto
termination
  by (relation "measure id") auto

declare showNat.simps [simp del]

fun joinComma :: "string list \<Rightarrow> string" where
  "joinComma [] = []"
| "joinComma [s] = s"
| "joinComma (s # t # ss) = s @ '','' @ joinComma (t # ss)"

fun jsToString :: "jsval \<Rightarrow> string" where
  "jsToString JUndefined = ''undefined''"
| "jsToString JNull = ''null''"
| "jsToString (JBool b) = (if b then ''true'' else ''false'')"
| "jsToString (JNum n) = (if n < 0 then CHR ''-'' # showNat (nat (- n)) else showNat (nat n))"
| "jsToString (JStr s) = s"
| "jsToString (JArr xs) =
     joinComma (map (\<lambda>x. if x = JUndefined \<or> x = JNull then [] else jsToString x) xs)"
| "jsToString (JObj kvs) = ''[object Object]''"

text \<open>
  The comparator \<^verbatim>\<open>(a, b) => a.name.localeCompare(b.name)\<close>: a TypeError unless the
  name of the left operand is a string (only strings have \<^verbatim>\<open>localeCompare\<close>); the name of
  the right operand is converted to a string.
\<close>

fun compareNames :: "env \<Rightarrow> jsval \<Rightarrow> jsval \<Rightarrow> jsError + int" where
  "compareNames e (JStr s) b = Inr (localeCompare e s (jsToString b))"
| "compareNames e a b = Inl TypeError"

text \<open>
  \<^verbatim>\<open>Array.prototype.sort\<close> with a comparator that may raise. The sort is stable, and
  the engine (V8: runs extended by binary insertion, then merged) always calls the
  comparator with the element that stands later as the left operand and an element
  that stands earlier as the right one. The model inserts the elements one by one,
  each behind the elements not greater than it, calling the comparator the same way
  round: every element but the first is a left operand at least once, the first one
  never is, so the sort raises exactly when an element other than the first makes
  the comparator raise as left operand. With the consistent order that
  \<^verbatim>\<open>localeCompare\<close> gives, every stable sort returns the same list.
\<close>

fun insertBy :: "('a \<Rightarrow> 'a \<Rightarrow> jsError + int) \<Rightarrow> 'a \<Rightarrow> 'a list \<Rightarrow> jsError + 'a list" where
  "insertBy cmp x [] = Inr [x]"
| "insertBy cmp x (y # ys) =
     (case cmp x y of
        Inl err \<Rightarrow> Inl err
      | Inr order \<Rightarrow>
          (if order < 0 then Inr (x # y # ys)
           else (case insertBy cmp x ys of
                   Inl err \<Rightarrow> Inl err
                 | Inr zs \<Rightarrow> Inr (y # zs))))"

fun sortFrom :: "('a \<Rightarrow> 'a \<Rightarrow> jsError + int) \<Rightarrow> 'a list \<Rightarrow> 'a list \<Rightarrow> jsError + 'a list" where
  "sortFrom cmp acc [] = Inr acc"
| "sortFrom cmp acc (x # xs) =
     (case insertBy cmp x acc of
        Inl err \<Rightarrow> Inl err
      | Inr acc' \<Rightarrow> sortFrom cmp acc' xs)"

text \<open>\<^verbatim>\<open>xs.sort((a, b) => a.name.localeCompare(b.name))\<close>\<close>

definition sortByName :: "env \<Rightarrow> ('a \<Rightarrow> jsval) \<Rightarrow> 'a list \<Rightarrow> jsError + 'a list" where
  "sortByName e nameOf xs = sortFrom (\<lambda>a b. compareNames e (nameOf a) (nameOf b)) [] xs"

definition getAllAgents :: "env \<Rightarrow> loader \<Rightarrow> (jsError + agentDef list) \<times> loader" where
  "getAllAgents e st =
     (let st' = ensureLoaded e st in (sortByName e name (map snd (agentCache st')), st'))"

text \<open>
  \<^verbatim>\<open>v.toLowerCase().includes(lowerQuery)\<close>: a TypeError unless \<^verbatim>\<open>v\<close> is a string.
\<close>

fun lowerIncludes :: "jsval \<Rightarrow> string \<Rightarrow> jsError + bool" where
  "lowerIncludes (JStr s) lowerQuery = Inr (includesStr (toLowerCase s) lowerQuery)"
| "lowerIncludes v lowerQuery = Inl TypeError"

text \<open>\<^verbatim>\<open>caps.some(cap => cap.toLowerCase().includes(lowerQuery))\<close>\<close>

fun someCapability :: "jsval list \<Rightarrow> string \<Rightarrow> jsError + bool" where
  "someCapability [] lowerQuery = Inr False"
| "someCapability (cap # caps) lowerQuery =
     (case lowerIncludes cap lowerQuery of
        Inl err \<Rightarrow> Inl err
      | Inr True \<Rightarrow> Inr True
      | Inr False \<Rightarrow> someCapability caps lowerQuery)"

text \<open>\<^verbatim>\<open>(agent.type?.toLowerCase().includes(lowerQuery) ?? false)\<close>\<close>

fun typeIncludes :: "jsval \<Rightarrow> string \<Rightarrow> jsError + bool" where
  "typeIncludes JUndefined lowerQuery = Inr False"
| "typeIncludes JNull lowerQuery = Inr False"
| "typeIncludes v lowerQuery = lowerIncludes v lowerQuery"

text \<open>The predicate of the filter in \<^verbatim>\<open>searchAgents\<close>, with the short circuit of \<^verbatim>\<open>||\<close>.\<close>

definition matchesQuery :: "string \<Rightarrow> agentDef \<Rightarrow> jsError + bool" where
  "matchesQuery lowerQuery a =
     (case lowerIncludes (name a) lowerQuery of
        Inl err \<Rightarrow> Inl err
      | Inr True \<Rightarrow> Inr True
      | Inr False \<Rightarrow>
          (case lowerIncludes (description a) lowerQuery of
             Inl err \<Rightarrow> Inl err
           | Inr True \<Rightarrow> Inr True
           | Inr False \<Rightarrow>
               (case someCapability (capabilities a) lowerQuery of
                  Inl err \<Rightarrow> Inl err
                | Inr True \<Rightarrow> Inr True
                | Inr False \<Rightarrow> typeIncludes (type a) lowerQuery)))"

text \<open>\<^verbatim>\<open>xs.filter(p)\<close> for a predicate that may raise.\<close>

fun filterRaising :: "('a \<Rightarrow> jsError + bool) \<Rightarrow> 'a list \<Rightarrow> jsError + 'a list" where
  "filterRaising p [] = Inr []"
| "filterRaising p (x # xs) =
     (case p x of
        Inl err \<Rightarrow> Inl err
      | Inr keep \<Rightarrow>
          (case filterRaising p xs of
             Inl err \<Rightarrow> Inl err
           | Inr ys \<Rightarrow> Inr (if keep then x # ys else ys)))"

definition searchAgents :: "env \<Rightarrow> string \<Rightarrow> loader \<Rightarrow> (jsError + agentDef list) \<times> loader" where
  "searchAgents e query st =
     (case getAllAgents e st of
        (Inl err, st') \<Rightarrow> (Inl err, st')
      | (Inr agents, st') \<Rightarrow> (filterRaising (matchesQuery (toLowerCase query)) agents, st'))"

subsection \<open>Per-file validation\<close>

record validationResult =
  valid :: bool
  resultPath :: string
  errors :: "string list"
  warnings :: "string list"
  agent :: "agentDef option"






section \<open>Unified Registry\<close>

record builtInAgent =
  builtInName :: string
  builtInType :: string
  builtInDescription :: string
  builtInCapabilities :: "string list"

definition BUILT_IN_AGENTS :: "builtInAgent list" where
  "BUILT_IN_AGENTS =
     [ \<lparr> builtInName = ''coordinator'', builtInType = ''coordinator'',
         builtInDescription = ''Orchestrates tasks and manages workflow between agents'',
         builtInCapabilities = [''Task Management'', ''Workflow Orchestration'',
                                ''Resource Allocation'', ''Coordination''] \<rparr>,
       \<lparr> builtInName = ''researcher'', builtInType = ''researcher'',
         builtInDescription = ''Gathers and analyzes information from various sources'',
         builtInCapabilities = [''Research'', ''Analysis'', ''Information Gathering'',
                                ''Documentation''] \<rparr>,
       \<lparr> builtInName = ''coder'', builtInType = ''coder'',
         builtInDescription = ''Writes, reviews, and maintains code implementations'',
         builtInCapabilities = [''Code Generation'', ''Implementation'', ''Refactoring'',
                                ''Debugging''] \<rparr>,
       \<lparr> builtInName = ''analyst'', builtInType = ''analyst'',
         builtInDescription = ''Performs data analysis and generates insights'',
         builtInCapabilities = [''Data Analysis'', ''Pattern Recognition'', ''Reporting'',
                                ''Optimization''] \<rparr>,
       \<lparr> builtInName = ''architect'', builtInType = ''architect'',
         builtInDescription = ''Designs system architecture and technical solutions'',
         builtInCapabilities = [''System Design'', ''Architecture'', ''Technical Planning'',
                                ''Integration''] \<rparr>,
       \<lparr> builtInName = ''tester'', builtInType = ''tester'',
         builtInDescription = ''Creates and executes tests, ensures quality'',
         builtInCapabilities = [''Testing'', ''Validation'', ''Quality Assurance'',
                                ''Performance Testing''] \<rparr>,
       \<lparr> builtInName = ''reviewer'', builtInType = ''reviewer'',
         builtInDescription = ''Reviews code and documentation for quality and standards'',
         builtInCapabilities = [''Code Review'', ''Documentation Review'',
                                ''Standards Compliance'', ''Feedback''] \<rparr>,
       \<lparr> builtInName = ''optimizer'', builtInType = ''optimizer'',
         builtInDescription = ''Optimizes performance and resource utilization'',
         builtInCapabilities = [''Performance Optimization'', ''Resource Management'',
                                ''Profiling'', ''Tuning''] \<rparr>,
       \<lparr> builtInName = ''general'', builtInType = ''general'',
         builtInDescription = ''General-purpose agent for various tasks'',
         builtInCapabilities = [''Research'', ''Analysis'', ''Code Generation''] \<rparr> ]"

text \<open>\<^verbatim>\<open>new Map(BUILT_IN_AGENTS.map(agent => [agent.name, agent]))\<close>\<close>

definition builtInAgents :: "(jsval \<times> builtInAgent) list" where
  "builtInAgents = foldl (\<lambda>m b. mapSet m (JStr (builtInName b)) b) [] BUILT_IN_AGENTS"

text \<open>What the unified registry hands out: a built-in record or a discovered definition.\<close>

datatype entry = BuiltIn builtInAgent | Discovered agentDef

fun entryName :: "entry \<Rightarrow> jsval" where
  "entryName (BuiltIn b) = JStr (builtInName b)"
| "entryName (Discovered a) = name a"

fun entryCapabilities :: "entry \<Rightarrow> jsval list" where
  "entryCapabilities (BuiltIn b) = map JStr (builtInCapabilities b)"
| "entryCapabilities (Discovered a) = capabilities a"

text \<open>
  The unified registry and the loader singleton it delegates to.
\<close>

record registry =
  customAgentLoader :: loader
  initialized :: bool

definition newRegistry :: "env \<Rightarrow> registry" where
  "newRegistry e = \<lparr> customAgentLoader = newLoader e, initialized = False \<rparr>"

definition ensureInitialized :: "env \<Rightarrow> registry \<Rightarrow> registry" where
  "ensureInitialized e reg =
     (if \<not> initialized reg
      then reg\<lparr>customAgentLoader := refresh e (customAgentLoader reg), initialized := True\<rparr>
      else reg)"

definition unifiedGetAgent :: "env \<Rightarrow> jsval \<Rightarrow> registry \<Rightarrow> entry option \<times> registry" where
  "unifiedGetAgent e nm reg =
     (let reg1 = ensureInitialized e reg;
          (customAgent, st') = getAgent e nm (customAgentLoader reg1);
          reg2 = reg1\<lparr>customAgentLoader := st'\<rparr>
      in case customAgent of
           Some a \<Rightarrow> (Some (Discovered a), reg2)
         | None \<Rightarrow> (map_option BuiltIn (mapGet builtInAgents nm), reg2))"

definition defaultCapabilities :: "jsval list" where
  "defaultCapabilities = [JStr ''Research'', JStr ''Analysis'', JStr ''Code Generation'']"

definition getAgentCapabilities :: "env \<Rightarrow> jsval \<Rightarrow> registry \<Rightarrow> jsval list \<times> registry" where
  "getAgentCapabilities e nm reg =
     (case unifiedGetAgent e nm reg of
        (Some a, reg') \<Rightarrow> (entryCapabilities a, reg')
      | (None, reg') \<Rightarrow> (defaultCapabilities, reg'))"

text \<open>The overlay loop of \<^verbatim>\<open>getAllAgents\<close>: \<^verbatim>\<open>result.set(agent.name, agent)\<close>.\<close>

definition overlay :: "(jsval \<times> entry) list \<Rightarrow> agentDef list \<Rightarrow> (jsval \<times> entry) list" where
  "overlay result customAgents = foldl (\<lambda>m a. mapSet m (name a) (Discovered a)) result customAgents"

definition unifiedGetAllAgents :: "env \<Rightarrow> registry \<Rightarrow> (jsError + entry list) \<times> registry" where
  "unifiedGetAllAgents e reg =
     (let reg1 = ensureInitialized e reg;
          result = foldl (\<lambda>m (nm, b). mapSet m nm (BuiltIn b)) [] builtInAgents
      in case getAllAgents e (customAgentLoader reg1) of
           (Inl err, st') \<Rightarrow> (Inl err, reg1\<lparr>customAgentLoader := st'\<rparr>)
         | (Inr customAgents, st') \<Rightarrow>
             (sortByName e entryName (map snd (overlay result customAgents)),
              reg1\<lparr>customAgentLoader := st'\<rparr>))"




section \<open>Notions used in the statements\<close>

text \<open>
  The outcome of \<^verbatim>\<open>parseAgentFile\<close> for one file under one root, apart from the error
  list (the outcome does not depend on the loader it is run in).
\<close>

definition readAgent :: "env \<Rightarrow> string \<Rightarrow> string \<Rightarrow> agentDef option" where
  "readAgent e filePath baseDir = fst (parseAgentFile e filePath baseDir (newLoader e))"

text \<open>
  The definitions of one discovery pass in the order in which the two loops of
  \<^verbatim>\<open>loadAgents\<close> meet them: root after root in processing order, file after file in
  listing order, the files without a definition left out.
\<close>

definition parsedFiles :: "env \<Rightarrow> string \<Rightarrow> string list \<Rightarrow> agentDef list" where
  "parsedFiles e searchPath files = List.map_filter (\<lambda>f. readAgent e f searchPath) files"

definition discovered :: "env \<Rightarrow> agentDef list" where
  "discovered e =
     concat (map (\<lambda>p. parsedFiles e p (findMarkdownFiles e p)) (rev (getSearchPaths e)))"




section \<open>Concrete scenarios\<close>

text \<open>
  A disk and a parser for the examples: the search paths, the files listed under each,
  the text of each file, and the parser given by the table of the header blocks it
  accepts, raising on every other block. Names are compared by character code.
\<close>

fun compareStrings :: "string \<Rightarrow> string \<Rightarrow> int" where
  "compareStrings [] [] = 0"
| "compareStrings [] (y # ys) = - 1"
| "compareStrings (x # xs) [] = 1"
| "compareStrings (x # xs) (y # ys) =
     (if (of_char x :: nat) < of_char y then - 1
      else if (of_char y :: nat) < of_char x then 1
      else compareStrings xs ys)"

definition tableYaml :: "(string \<times> jsval) list \<Rightarrow> yamlParser" where
  "tableYaml t y = (case map_of t y of Some v \<Rightarrow> Inr v | None \<Rightarrow> Inl ''YAMLParseError'')"

definition scenario ::
  "string list \<Rightarrow> (string \<times> string list) list \<Rightarrow> (string \<times> string) list
     \<Rightarrow> (string \<times> jsval) list \<Rightarrow> int \<Rightarrow> env" where
  "scenario roots listing files headers now =
     \<lparr> getSearchPaths = roots,
       findMarkdownFiles = (\<lambda>d. case map_of listing d of Some fs \<Rightarrow> fs | None \<Rightarrow> []),
       existsSync = (\<lambda>p. map_of files p \<noteq> None),
       readFileSync = (\<lambda>p. case map_of files p of
                              Some c \<Rightarrow> Inr c
                            | None \<Rightarrow> Inl (''ENOENT: no such file or directory, open '' @ p)),
       parseYaml = tableYaml headers,
       dateNow = now,
       localeCompare = compareStrings \<rparr>"

text \<open>A document: the delimiter line, the header block, the delimiter line, the body.\<close>

definition document :: "string \<Rightarrow> string \<Rightarrow> string" where
  "document header body = ''---'' @ [LF] @ header @ [LF] @ ''---'' @ [LF] @ body"

text \<open>The four levels of \<^verbatim>\<open>priority\<close> in \<^verbatim>\<open>CustomAgentDefinition\<close>.\<close>

definition priorityLevels :: "jsval list" where
  "priorityLevels = [JStr ''low'', JStr ''medium'', JStr ''high'', JStr ''critical'']"

text \<open>A project root with one file whose header asks for the priority \<^verbatim>\<open>urgent\<close>.\<close>

definition urgentEnv :: env where
  "urgentEnv =
     scenario [''/p/.claude/agents'']
       [(''/p/.claude/agents'', [''/p/.claude/agents/fixer.md''])]
       [(''/p/.claude/agents/fixer.md'',
         document (''name: fixer'' @ [LF] @ ''priority: urgent'') ''Fix it.'')]
       [(''name: fixer'' @ [LF] @ ''priority: urgent'',
         JObj [(''name'', JStr ''fixer''), (''priority'', JStr ''urgent'')])]
       100000"

text \<open>Whether the document has a header block that the parser accepts.\<close>

definition headerParses :: "yamlParser \<Rightarrow> string \<Rightarrow> bool" where
  "headerParses parse content =
     (case matchFrontmatter content of
        None \<Rightarrow> False
      | Some (yamlContent, markdownBody) \<Rightarrow>
          (case parse yamlContent of Inl err \<Rightarrow> False | Inr v \<Rightarrow> True))"

definition malformedDoc :: string where
  "malformedDoc = document ''name: [unclosed'' ''Body''"

text \<open>A header block that is one plain word: a YAML document that is a scalar.\<close>

definition scalarDoc :: string where
  "scalarDoc = document ''hello'' (''Body'' @ [LF])"

definition scalarYaml :: yamlParser where
  "scalarYaml = tableYaml [(''hello'', JStr ''hello'')]"

text \<open>No agent directory at all, at clock reading \<open>t\<close>.\<close>

definition emptyEnvAt :: "int \<Rightarrow> env" where
  "emptyEnvAt t = scenario [] [] [] [] t"

text \<open>
  A custom root whose one file defines an agent named \<^verbatim>\<open>coder\<close>, at clock reading \<open>t\<close>.
\<close>

definition coderHeader :: string where
  "coderHeader = ''name: coder'' @ [LF] @ ''description: House style coder''"

definition coderEnvAt :: "int \<Rightarrow> env" where
  "coderEnvAt t =
     scenario [''/p/.claude-flow/agents'']
       [(''/p/.claude-flow/agents'', [''/p/.claude-flow/agents/dev/coder.md''])]
       [(''/p/.claude-flow/agents/dev/coder.md'', document coderHeader ''Write code.'')]
       [(coderHeader,
         JObj [(''name'', JStr ''coder''), (''description'', JStr ''House style coder'')])]
       t"

definition coderDef :: agentDef where
  "coderDef =
     \<lparr> name = JStr ''coder'', type = JUndefined, color = JUndefined,
       description = JStr ''House style coder'', capabilities = [],
       priority = JStr ''medium'', hooks = JUndefined, systemPrompt = ''Write code.'',
       sourcePath = ''/p/.claude-flow/agents/dev/coder.md'', category = ''dev'',
       isCustom = True \<rparr>"

text \<open>
  A custom root and a project root that each hold a file resolving to the name \<^verbatim>\<open>x\<close>;
  \<open>overrideEnv\<close> lists the custom root first (so it is processed last), \<open>overrideEnvSwapped\<close>
  lists it last (so it is processed first).
\<close>

definition customHeader :: string where
  "customHeader = ''name: x'' @ [LF] @ ''description: custom x''"

definition projectHeader :: string where
  "projectHeader = ''name: x'' @ [LF] @ ''description: project x''"

definition overrideRoots :: "string list \<Rightarrow> env" where
  "overrideRoots roots =
     scenario roots
       [(''/p/.claude-flow/agents'', [''/p/.claude-flow/agents/x.md'']),
        (''/p/.claude/agents'', [''/p/.claude/agents/x.md''])]
       [(''/p/.claude-flow/agents/x.md'', document customHeader ''Custom.''),
        (''/p/.claude/agents/x.md'', document projectHeader ''Project.'')]
       [(customHeader, JObj [(''name'', JStr ''x''), (''description'', JStr ''custom x'')]),
        (projectHeader, JObj [(''name'', JStr ''x''), (''description'', JStr ''project x'')])]
       100000"

definition overrideEnv :: env where
  "overrideEnv = overrideRoots [''/p/.claude-flow/agents'', ''/p/.claude/agents'']"




text \<open>A custom root with two files that both resolve to the name \<^verbatim>\<open>dup\<close>.\<close>

definition firstHeader :: string where
  "firstHeader = ''name: dup'' @ [LF] @ ''description: first''"

definition secondHeader :: string where
  "secondHeader = ''name: dup'' @ [LF] @ ''description: second''"

definition duplicateEnv :: env where
  "duplicateEnv =
     scenario [''/p/.claude-flow/agents'']
       [(''/p/.claude-flow/agents'',
         [''/p/.claude-flow/agents/a.md'', ''/p/.claude-flow/agents/b.md''])]
       [(''/p/.claude-flow/agents/a.md'', document firstHeader ''One.''),
        (''/p/.claude-flow/agents/b.md'', document secondHeader ''Two.'')]
       [(firstHeader, JObj [(''name'', JStr ''dup''), (''description'', JStr ''first'')]),
        (secondHeader, JObj [(''name'', JStr ''dup''), (''description'', JStr ''second'')])]
       100000"

definition firstDup :: agentDef where
  "firstDup =
     \<lparr> name = JStr ''dup'', type = JUndefined, color = JUndefined,
       description = JStr ''first'', capabilities = [],
       priority = JStr ''medium'', hooks = JUndefined, systemPrompt = ''One.'',
       sourcePath = ''/p/.claude-flow/agents/a.md'', category = ''custom'',
       isCustom = True \<rparr>"

definition secondDup :: agentDef where
  "secondDup =
     \<lparr> name = JStr ''dup'', type = JUndefined, color = JUndefined,
       description = JStr ''second'', capabilities = [],
       priority = JStr ''medium'', hooks = JUndefined, systemPrompt = ''Two.'',
       sourcePath = ''/p/.claude-flow/agents/b.md'', category = ''custom'',
       isCustom = True \<rparr>"

text \<open>The registry after its first full listing, with the custom \<^verbatim>\<open>coder\<close> on disk.\<close>

definition coderRegistry :: registry where
  "coderRegistry = snd (unifiedGetAllAgents (coderEnvAt 100000) (newRegistry (coderEnvAt 100000)))"








section \<open>Basic facts\<close>

lemma includesStr_empty: "includesStr s []"
  by (cases s) simp_all

lemma toLowerCase_empty: "toLowerCase [] = []"
  by (simp add: toLowerCase_def)

subsection \<open>Sorting by name\<close>

lemma insertBy_Inr:
  "insertBy cmp x ys = Inr zs \<Longrightarrow>
   set zs = insert x (set ys) \<and> length (filter P zs) = length (filter P (x # ys))"
proof (induction ys arbitrary: zs)
  case Nil
  then show ?case by auto
next
  case (Cons y ys)
  from Cons.prems obtain order where c: "cmp x y = Inr order"
    by (cases "cmp x y") auto
  show ?case
  proof (cases "order < 0")
    case True
    with Cons.prems c show ?thesis by auto
  next
    case False
    with Cons.prems c obtain zs' where i: "insertBy cmp x ys = Inr zs'" and z: "zs = y # zs'"
      by (cases "insertBy cmp x ys") auto
    from Cons.IH [OF i] show ?thesis
      by (auto simp: z)
  qed
qed

lemma sortFrom_Inr:
  "sortFrom cmp acc xs = Inr zs \<Longrightarrow>
   set zs = set acc \<union> set xs
   \<and> length (filter P zs) = length (filter P acc) + length (filter P xs)"
proof (induction xs arbitrary: acc)
  case Nil
  then show ?case by simp
next
  case (Cons x xs)
  from Cons.prems obtain acc' where i: "insertBy cmp x acc = Inr acc'"
    and r: "sortFrom cmp acc' xs = Inr zs"
    by (cases "insertBy cmp x acc") auto
  from insertBy_Inr [OF i, of P] Cons.IH [OF r] show ?case
    by auto
qed

lemma sortByName_set: "sortByName e f xs = Inr ys \<Longrightarrow> set ys = set xs"
  using sortFrom_Inr [of _ "[]" xs ys] by (simp add: sortByName_def)




lemma insertBy_returns:
  "\<forall>y. \<exists>order. cmp x y = Inr order \<Longrightarrow> \<exists>zs. insertBy cmp x ys = Inr zs"
proof (induction ys)
  case Nil
  show ?case by simp
next
  case (Cons y ys)
  from Cons.prems obtain order where c: "cmp x y = Inr order"
    by blast
  from Cons.IH Cons.prems obtain zs where "insertBy cmp x ys = Inr zs"
    by blast
  with c show ?case
    by simp
qed

lemma sortFrom_returns:
  "\<forall>x\<in>set xs. \<forall>y. \<exists>order. cmp x y = Inr order \<Longrightarrow> \<exists>zs. sortFrom cmp acc xs = Inr zs"
proof (induction xs arbitrary: acc)
  case Nil
  show ?case by simp
next
  case (Cons x xs)
  then have "\<forall>y. \<exists>order. cmp x y = Inr order"
    by simp
  then obtain acc' where i: "insertBy cmp x acc = Inr acc'"
    using insertBy_returns [of cmp x acc] by blast
  from Cons.prems have "\<forall>x\<in>set xs. \<forall>y. \<exists>order. cmp x y = Inr order"
    by simp
  then obtain zs where "sortFrom cmp acc' xs = Inr zs"
    using Cons.IH [of acc'] by blast
  with i show ?case
    by simp
qed

lemma compareNames_string: "isString a \<Longrightarrow> \<exists>order. compareNames e a b = Inr order"
  by (cases a) simp_all

lemma sortByName_strings:
  assumes "list_all (\<lambda>x. isString (f x)) xs"
  shows "\<exists>ys. sortByName e f xs = Inr ys"
  unfolding sortByName_def
  by (rule sortFrom_returns) (use assms in \<open>auto simp: list_all_iff compareNames_string\<close>)





text \<open>
  The sort raises exactly when the name of an element other than the first is not a
  string: a name that is not a string is harmless in the first place, where it is only
  ever the right operand.
\<close>

lemma sortByName_left_operand_examples:
  "sortByName (coderEnvAt 0) id [JNum 123, JStr ''b''] = Inr [JNum 123, JStr ''b'']
   \<and> sortByName (coderEnvAt 0) id [JStr ''b'', JNum 123] = Inl TypeError
   \<and> sortByName (coderEnvAt 0) id [JNum 123] = Inr [JNum 123]
   \<and> sortByName (coderEnvAt 0) id [JStr ''b'', JStr ''a'', JStr ''c''] = Inr [JStr ''a'', JStr ''b'', JStr ''c'']"
  by code_simp

subsection \<open>What a discovery pass leaves alone\<close>

lemma passes_parseAgentFile: "passes (snd (parseAgentFile e f b st)) = passes st"
  by (simp add: parseAgentFile_def pushError_def Let_def split: sum.splits prod.splits)

lemma agentCache_parseAgentFile: "agentCache (snd (parseAgentFile e f b st)) = agentCache st"
  by (simp add: parseAgentFile_def pushError_def Let_def split: sum.splits prod.splits)

lemma passes_loadFiles: "passes (loadFiles e b fs st) = passes st"
proof (induction fs arbitrary: st)
  case Nil
  show ?case by simp
next
  case (Cons f fs)
  show ?case
    using passes_parseAgentFile [of e f b st]
    by (cases "parseAgentFile e f b st") (auto simp: Cons.IH split: option.splits)
qed

lemma passes_loadPaths: "passes (loadPaths e ps st) = passes st"
  by (induction ps arbitrary: st) (simp_all add: passes_loadFiles)

lemma passes_loadAgents: "passes (loadAgents e st) = passes st + 1"
  by (simp add: loadAgents_def Let_def passes_loadPaths)

lemma lastLoadTime_loadAgents: "lastLoadTime (loadAgents e st) = dateNow e"
  by (simp add: loadAgents_def Let_def)

lemma parseAgentFile_lastLoadTime:
  "parseAgentFile e f b (s\<lparr>lastLoadTime := t\<rparr>)
     = (fst (parseAgentFile e f b s), (snd (parseAgentFile e f b s))\<lparr>lastLoadTime := t\<rparr>)"
  by (simp add: parseAgentFile_def pushError_def Let_def split: sum.splits prod.splits)

lemma loadFiles_lastLoadTime:
  "loadFiles e b fs (s\<lparr>lastLoadTime := t\<rparr>) = (loadFiles e b fs s)\<lparr>lastLoadTime := t\<rparr>"
proof (induction fs arbitrary: s)
  case Nil
  show ?case by simp
next
  case (Cons f fs)
  obtain r s' where p: "parseAgentFile e f b s = (r, s')"
    by (cases "parseAgentFile e f b s")
  have swap: "s'\<lparr>lastLoadTime := t, agentCache := c\<rparr> = (s'\<lparr>agentCache := c\<rparr>)\<lparr>lastLoadTime := t\<rparr>"
    for c
    by simp
  show ?case
  proof (cases r)
    case None
    then show ?thesis
      by (simp add: parseAgentFile_lastLoadTime p Cons.IH)
  next
    case (Some a)
    then show ?thesis
      by (simp add: parseAgentFile_lastLoadTime p swap Cons.IH del: loader.update_convs)
  qed
qed

lemma loadPaths_lastLoadTime:
  "loadPaths e ps (s\<lparr>lastLoadTime := t\<rparr>) = (loadPaths e ps s)\<lparr>lastLoadTime := t\<rparr>"
  by (induction ps arbitrary: s) (simp_all add: loadFiles_lastLoadTime)

lemma loadAgents_ignores_lastLoadTime:
  "loadAgents e (st\<lparr>lastLoadTime := t\<rparr>) = loadAgents e st"
proof -
  let ?s = "st\<lparr>agentCache := [], loadErrors := [], searchPaths := getSearchPaths e\<rparr>"
  have swap: "st\<lparr>lastLoadTime := t, agentCache := [], loadErrors := [],
                 searchPaths := getSearchPaths e\<rparr> = ?s\<lparr>lastLoadTime := t\<rparr>"
    by simp
  have paths: "loadPaths e (rev (getSearchPaths e)) (?s\<lparr>lastLoadTime := t\<rparr>)
                 = (loadPaths e (rev (getSearchPaths e)) ?s)\<lparr>lastLoadTime := t\<rparr>"
    by (rule loadPaths_lastLoadTime)
  have sp: "searchPaths (?s\<lparr>lastLoadTime := t\<rparr>) = getSearchPaths e"
           "searchPaths ?s = getSearchPaths e"
    by simp_all
  show ?thesis
    unfolding loadAgents_def Let_def swap sp paths by simp
qed

section \<open>The snapshot as a map\<close>


lemma mapGet_mapSet:
  "mapGet (mapSet m k v) n = (if sameValueZero k n then Some v else mapGet m n)"
  by (induction m) (auto simp: sameValueZero_def)

lemma mapGet_storeAgent:
  "mapGet (storeAgent a c) n
     = (if sameValueZero (name a) n \<and> (mapGet c n = None \<or> isCustom a) then Some a
        else mapGet c n)"
  by (auto simp: storeAgent_def mapGet_mapSet sameValueZero_def split: option.splits)

lemma mapGet_None_mapSet:
  "mapGet (mapSet m k v) n = None \<longleftrightarrow> \<not> sameValueZero k n \<and> mapGet m n = None"
  by (simp add: mapGet_mapSet)




lemma fst_parseAgentFile: "fst (parseAgentFile e f b st) = readAgent e f b"
proof (cases "readFileSync e f")
  case (Inl msg)
  then show ?thesis
    by (simp add: readAgent_def parseAgentFile_def)
next
  case (Inr content)
  obtain fm body where pf: "parseFrontmatter (parseYaml e) content = (fm, body)"
    by (cases "parseFrontmatter (parseYaml e) content")
  show ?thesis
    by (simp add: readAgent_def parseAgentFile_def Inr pf Let_def)
qed

lemma agentCache_loadFiles:
  "agentCache (loadFiles e b fs st) = foldl (\<lambda>c a. storeAgent a c) (agentCache st) (parsedFiles e b fs)"
proof (induction fs arbitrary: st)
  case Nil
  show ?case by (simp add: parsedFiles_def map_filter_simps)
next
  case (Cons f fs)
  obtain r s' where p: "parseAgentFile e f b st = (r, s')"
    by (cases "parseAgentFile e f b st")
  have r: "readAgent e f b = r" and c: "agentCache s' = agentCache st"
    using fst_parseAgentFile [of e f b st] agentCache_parseAgentFile [of e f b st] p by simp_all
  show ?case
    using Cons.IH r c
    by (cases r) (simp_all add: p parsedFiles_def map_filter_simps)
qed

lemma agentCache_loadPaths:
  "agentCache (loadPaths e ps st)
     = foldl (\<lambda>c a. storeAgent a c) (agentCache st)
         (concat (map (\<lambda>p. parsedFiles e p (findMarkdownFiles e p)) ps))"
  by (induction ps arbitrary: st) (simp_all add: agentCache_loadFiles)

lemma agentCache_loadAgents:
  "agentCache (loadAgents e st) = foldl (\<lambda>c a. storeAgent a c) [] (discovered e)"
  by (simp add: loadAgents_def Let_def agentCache_loadPaths discovered_def)




subsection \<open>Lookups after a whole pass\<close>

lemma mapGet_foldl_custom:
  assumes "b \<in> set ds" "isCustom b" "sameValueZero (name b) n"
  shows "\<exists>z. mapGet (foldl (\<lambda>c a. storeAgent a c) c ds) n = Some z \<and> isCustom z
              \<and> name z = n \<and> z \<in> set ds"
  using assms
proof (induction ds arbitrary: c rule: rev_induct)
  case Nil
  then show ?case by simp
next
  case (snoc a ds)
  show ?case
  proof (cases "isCustom a \<and> sameValueZero (name a) n")
    case True
    then have "mapGet (foldl (\<lambda>c a. storeAgent a c) c (ds @ [a])) n = Some a"
      by (simp add: mapGet_storeAgent)
    moreover have "name a = n"
      using True by (simp add: sameValueZero_def)
    ultimately show ?thesis
      using True by simp
  next
    case False
    with snoc.prems have "b \<in> set ds" by auto
    from snoc.IH [OF this snoc.prems(2,3), of c] obtain z where
      z: "mapGet (foldl (\<lambda>c a. storeAgent a c) c ds) n = Some z" "isCustom z" "name z = n" "z \<in> set ds"
      by blast
    have "mapGet (foldl (\<lambda>c a. storeAgent a c) c (ds @ [a])) n = Some z"
      using False z(1) by (auto simp: mapGet_storeAgent)
    with z show ?thesis
      by simp
  qed
qed

lemma mapGet_foldl_last_custom:
  assumes "isCustom b" "sameValueZero (name b) n"
      and "\<forall>a\<in>set zs. isCustom a \<longrightarrow> \<not> sameValueZero (name a) n"
  shows "mapGet (foldl (\<lambda>c a. storeAgent a c) c (ys @ b # zs)) n = Some b"
  using assms(3)
proof (induction zs rule: rev_induct)
  case Nil
  show ?case using assms(1,2) by (simp add: mapGet_storeAgent)
next
  case (snoc a zs)
  define X where "X = foldl (\<lambda>c a. storeAgent a c) c (ys @ b # zs)"
  from snoc have IH: "mapGet X n = Some b"
    and a: "isCustom a \<longrightarrow> \<not> sameValueZero (name a) n"
    by (auto simp: X_def)
  have step: "foldl (\<lambda>c a. storeAgent a c) c (ys @ b # zs @ [a]) = storeAgent a X"
    by (simp add: X_def)
  have "\<not> (sameValueZero (name a) n \<and> (mapGet X n = None \<or> isCustom a))"
    using a by (auto simp: IH)
  then have "mapGet (storeAgent a X) n = mapGet X n"
    by (simp only: mapGet_storeAgent if_False)
  then show ?case
    by (simp only: step IH)
qed





subsection \<open>The definitions of a pass\<close>












section \<open>Maps with distinct keys, overlay and sorting\<close>













subsection \<open>When the listing and the statistics return\<close>













section \<open>Paths and categories\<close>




lemma splitSep_no_sep: "\<forall>c\<in>set s. \<not> isSep c \<Longrightarrow> splitSep s = [s]"
  by (induction s) simp_all

lemma stripLeadingSep_no_sep: "\<forall>c\<in>set s. \<not> isSep c \<Longrightarrow> stripLeadingSep s = s"
  by (cases s) simp_all




lemma custom_no_sep:
  "\<forall>c\<in>set (stripLeadingSep r). \<not> isSep c
   \<Longrightarrow> (let parts = splitSep (stripLeadingSep r) in if length parts > 1 then hd parts else ''custom'')
       = ''custom''"
  by (simp add: splitSep_no_sep)







subsection \<open>What the validator hands to the reader\<close>






section \<open>Frontmatter Parser: malformed headers\<close>

text \<open>
  C7, as stated: every document whose header block does not parse as a key-value
  mapping gives no header and the original text. \<^verbatim>\<open>parseFrontmatter\<close> leaves the header
  absent only when the delimiters are missing or the YAML parser raises. A header
  block that is a plain word is a YAML document too (a scalar): the YAML parser
  returns the word without raising, and \<^verbatim>\<open>parseFrontmatter\<close> returns the word as the
  header and the trimmed body.
\<close>

theorem parseFrontmatter_scalar_header_counterexample:
  "matchFrontmatter scalarDoc = Some (''hello'', ''Body'' @ [LF])
   \<and> scalarYaml ''hello'' = Inr (JStr ''hello'')
   \<and> parseFrontmatter scalarYaml scalarDoc = (JStr ''hello'', ''Body'')
   \<and> parseFrontmatter scalarYaml scalarDoc \<noteq> (JNull, scalarDoc)"
  by code_simp

text \<open>
  C7, amended: a document that lacks the delimiter shape, or whose header block makes
  the YAML parser raise, gives no header and the original, unmodified text; the
  function returns in every case (its result is a pair, the raise of the YAML parser
  is caught).
\<close>

theorem parseFrontmatter_malformed_header:
  "\<not> headerParses parse content \<Longrightarrow> parseFrontmatter parse content = (JNull, content)"
  by (auto simp: headerParses_def parseFrontmatter_def split: option.splits sum.splits)

theorem parseFrontmatter_malformed_header_witness:
  "\<not> headerParses (tableYaml []) malformedDoc
   \<and> matchFrontmatter malformedDoc = Some (''name: [unclosed'', ''Body'')
   \<and> parseFrontmatter (tableYaml []) malformedDoc = (JNull, malformedDoc)"
proof -
  have h: "\<not> headerParses (tableYaml []) malformedDoc"
    by code_simp
  have m: "matchFrontmatter malformedDoc = Some (''name: [unclosed'', ''Body'')"
    by code_simp
  show ?thesis
    using h m parseFrontmatter_malformed_header [OF h] by simp
qed

section \<open>Definition Reader: priority\<close>

text \<open>
  C2: the priority of a definition is one of low, medium, high, critical, and an
  unrecognized value is coerced to medium. \<^verbatim>\<open>parseAgentFile\<close> computes
  \<^verbatim>\<open>frontmatter.priority || 'medium'\<close>: for the header \<^verbatim>\<open>priority: urgent\<close> the definition
  carries \<^verbatim>\<open>urgent\<close>, which is none of the four levels that the type of the field allows.
\<close>

theorem parseAgentFile_priority_urgent:
  "map_option priority
     (fst (parseAgentFile urgentEnv ''/p/.claude/agents/fixer.md'' ''/p/.claude/agents''
             (newLoader urgentEnv)))
     = Some (JStr ''urgent'')
   \<and> JStr ''urgent'' \<notin> set priorityLevels"
  by code_simp

text \<open>
  What the reader does do: a missing or falsy header priority becomes \<^verbatim>\<open>medium\<close>, and
  every other header value is kept as it is.
\<close>

lemma readAgent_priority:
  assumes "readAgent e f b = Some a" "readFileSync e f = Inr content"
  shows "priority a
           = jsOr (getProp (fst (parseFrontmatter (parseYaml e) content)) ''priority'')
               (JStr ''medium'')"
proof -
  obtain fm body where pf: "parseFrontmatter (parseYaml e) content = (fm, body)"
    by (cases "parseFrontmatter (parseYaml e) content")
  from assms show ?thesis
    by (auto simp: readAgent_def parseAgentFile_def pf Let_def split: if_splits)
qed

lemma readAgent_priority_default:
  assumes "readAgent e f b = Some a" "readFileSync e f = Inr content"
      and "\<not> truthy (getProp (fst (parseFrontmatter (parseYaml e) content)) ''priority'')"
  shows "priority a = JStr ''medium''"
  using readAgent_priority [OF assms(1,2)] assms(3) by (simp add: jsOr_def)

section \<open>Agent Registry: search with an empty query\<close>

lemma matchesQuery_empty: "isString (name a) \<Longrightarrow> matchesQuery [] a = Inr True"
  by (cases "name a") (simp_all add: matchesQuery_def includesStr_empty)

lemma filterRaising_all:
  "list_all (\<lambda>x. p x = Inr True) xs \<Longrightarrow> filterRaising p xs = Inr xs"
  by (induction xs) simp_all

text \<open>
  C5, as stated: the empty query gives empty results. The empty string is a substring
  of every name, so the one agent of this registry is returned.
\<close>

theorem searchAgents_empty_query_counterexample:
  "fst (searchAgents (coderEnvAt 100000) '''' (newLoader (coderEnvAt 100000))) = Inr [coderDef]
   \<and> fst (searchAgents (coderEnvAt 100000) '''' (newLoader (coderEnvAt 100000))) \<noteq> Inr []"
  by code_simp

text \<open>
  C5, amended: on a registry whose definitions have strings as names, the search with
  the empty query does not raise and returns every definition of the snapshot, as
  the full name-sorted listing does.
\<close>

theorem searchAgents_empty_query:
  assumes "list_all (\<lambda>a. isString (name a)) (map snd (agentCache (ensureLoaded e st)))"
  shows "searchAgents e '''' st = getAllAgents e st
         \<and> (\<exists>agents. fst (searchAgents e '''' st) = Inr agents
               \<and> set agents = snd ` set (agentCache (ensureLoaded e st)))"
proof -
  let ?xs = "map snd (agentCache (ensureLoaded e st))"
  from sortByName_strings [OF assms, of e] obtain ys where
    ys: "sortByName e name ?xs = Inr ys"
    by blast
  have sorted: "getAllAgents e st = (Inr ys, ensureLoaded e st)"
    by (simp add: getAllAgents_def Let_def ys)
  have same_set: "set ys = set ?xs"
    using ys by (rule sortByName_set)
  then have "list_all (\<lambda>a. isString (name a)) ys"
    using assms by (simp add: list_all_iff)
  then have "list_all (\<lambda>a. matchesQuery [] a = Inr True) ys"
    by (simp add: list_all_iff matchesQuery_empty)
  then have kept: "filterRaising (matchesQuery []) ys = Inr ys"
    by (rule filterRaising_all)
  have same: "searchAgents e '''' st = getAllAgents e st"
    by (simp add: searchAgents_def sorted kept toLowerCase_empty)
  then show ?thesis
    using same_set by (simp add: sorted)
qed

theorem searchAgents_empty_query_witness:
  "list_all (\<lambda>a. isString (name a))
     (map snd (agentCache (ensureLoaded (coderEnvAt 100000) (newLoader (coderEnvAt 100000)))))
   \<and> searchAgents (coderEnvAt 100000) '''' (newLoader (coderEnvAt 100000))
       = getAllAgents (coderEnvAt 100000) (newLoader (coderEnvAt 100000))"
proof -
  have h: "list_all (\<lambda>a. isString (name a))
     (map snd (agentCache (ensureLoaded (coderEnvAt 100000) (newLoader (coderEnvAt 100000)))))"
    by code_simp
  show ?thesis
    using h searchAgents_empty_query [OF h] by simp
qed

section \<open>Agent Registry: cache expiry\<close>

text \<open>
  C3, as stated: two reads less than the time-to-live apart are served without a new
  scan. \<^verbatim>\<open>ensureLoaded\<close> also reloads whenever the snapshot is empty: with no agent file
  on disk, two lookups one millisecond apart run two discovery passes.
\<close>

theorem getAgent_empty_snapshot_counterexample:
  "lastLoadTime (snd (getAgent (emptyEnvAt 100000) (JStr ''coder'') (newLoader (emptyEnvAt 100000))))
     = 100000
   \<and> passes (snd (getAgent (emptyEnvAt 100000) (JStr ''coder'') (newLoader (emptyEnvAt 100000))))
     = 1
   \<and> dateNow (emptyEnvAt 100001) - 100000 < cacheExpiry
   \<and> passes (snd (getAgent (emptyEnvAt 100001) (JStr ''coder'')
               (snd (getAgent (emptyEnvAt 100000) (JStr ''coder'') (newLoader (emptyEnvAt 100000))))))
     = 2"
  by code_simp

text \<open>
  C3, amended: on a registry whose snapshot is not empty, a read at most 60000 ms
  after the last refresh (its \<^verbatim>\<open>ensureLoaded\<close> step, and the \<^verbatim>\<open>getAgent\<close> lookup built on it)
  is answered from the snapshot in place and leaves the whole registry as it was (no
  discovery pass), so two such reads are served from the snapshot of the same pass;
  a read more than 60000 ms after the last refresh runs exactly one discovery pass.
\<close>

theorem getAgent_cache_window:
  "(agentCache st \<noteq> [] \<and> dateNow e1 - lastLoadTime st \<le> 60000
      \<and> dateNow e2 - lastLoadTime st \<le> 60000
    \<longrightarrow> ensureLoaded e1 st = st
        \<and> getAgent e1 n1 st = (mapGet (agentCache st) n1, st)
        \<and> getAgent e2 n2 (snd (getAgent e1 n1 st)) = (mapGet (agentCache st) n2, st))
   \<and> (dateNow e1 - lastLoadTime st > 60000
    \<longrightarrow> ensureLoaded e1 st = loadAgents e1 st
        \<and> snd (getAgent e1 n1 st) = loadAgents e1 st
        \<and> passes (snd (getAgent e1 n1 st)) = passes st + 1)"
  by (simp add: getAgent_def ensureLoaded_def needsRefresh_def cacheExpiry_def Let_def
        passes_loadAgents)

lemma getAgent_empty_snapshot:
  "agentCache st = [] \<Longrightarrow> snd (getAgent e nm st) = loadAgents e st"
  by (simp add: getAgent_def ensureLoaded_def Let_def)

theorem getAgent_cache_window_witness:
  "agentCache (loadAgents (coderEnvAt 100000) (newLoader (coderEnvAt 100000))) \<noteq> []
   \<and> passes (snd (getAgent (coderEnvAt 160000) (JStr ''coder'')
                (snd (getAgent (coderEnvAt 130000) (JStr ''coder'')
                   (loadAgents (coderEnvAt 100000) (newLoader (coderEnvAt 100000)))))))
       = 1
   \<and> passes (snd (getAgent (coderEnvAt 160001) (JStr ''coder'')
                (loadAgents (coderEnvAt 100000) (newLoader (coderEnvAt 100000)))))
       = 2"
proof -
  let ?st = "loadAgents (coderEnvAt 100000) (newLoader (coderEnvAt 100000))"
  have c: "agentCache ?st \<noteq> []"
    by code_simp
  have l: "lastLoadTime ?st = 100000"
    by code_simp
  have p: "passes ?st = 1"
    by code_simp
  have d: "dateNow (coderEnvAt 130000) = 130000" "dateNow (coderEnvAt 160000) = 160000"
          "dateNow (coderEnvAt 160001) = 160001"
    by code_simp+
  have w: "agentCache ?st \<noteq> [] \<and> dateNow (coderEnvAt 130000) - lastLoadTime ?st \<le> 60000
             \<and> dateNow (coderEnvAt 160000) - lastLoadTime ?st \<le> 60000"
    using c l d by simp
  have x: "dateNow (coderEnvAt 160001) - lastLoadTime ?st > 60000"
    using l d by simp
  have inside: "getAgent (coderEnvAt 160000) (JStr ''coder'')
                  (snd (getAgent (coderEnvAt 130000) (JStr ''coder'') ?st))
                = (mapGet (agentCache ?st) (JStr ''coder''), ?st)"
    using getAgent_cache_window [of ?st "coderEnvAt 130000" "coderEnvAt 160000"
            "JStr ''coder''" "JStr ''coder''"] w
    by blast
  have after: "passes (snd (getAgent (coderEnvAt 160001) (JStr ''coder'') ?st)) = passes ?st + 1"
    using getAgent_cache_window [of ?st "coderEnvAt 160001" "coderEnvAt 160001"
            "JStr ''coder''" "JStr ''coder''"] x
    by blast
  show ?thesis
    using c by (simp only: inside after p snd_conv) simp
qed

section \<open>Agent Registry: force refresh\<close>

text \<open>
  C4, as stated: a force refresh resets the timestamp so that the next ensure-fresh
  call rebuilds whatever the elapsed time. \<^verbatim>\<open>refresh\<close> sets the timestamp to 0 and then
  runs \<^verbatim>\<open>loadAgents\<close> itself, which stamps the time of that pass: one millisecond later
  the next ensure-fresh call rebuilds nothing.
\<close>

theorem refresh_then_ensureLoaded_counterexample:
  "lastLoadTime (refresh (coderEnvAt 100000) (newLoader (coderEnvAt 100000))) = 100000
   \<and> passes (refresh (coderEnvAt 100000) (newLoader (coderEnvAt 100000))) = 1
   \<and> ensureLoaded (coderEnvAt 100001) (refresh (coderEnvAt 100000) (newLoader (coderEnvAt 100000)))
       = refresh (coderEnvAt 100000) (newLoader (coderEnvAt 100000))"
  by code_simp

text \<open>
  C4, amended: a force refresh runs one full discovery pass at once, whatever the
  time since the previous pass, and leaves the last-refresh timestamp at the clock
  reading of that pass; the next ensure-fresh call rebuilds only if the new snapshot
  is empty or more than 60000 ms have passed since the forced pass.
\<close>

theorem refresh_rebuilds_now:
  "refresh e st = loadAgents e st
   \<and> passes (refresh e st) = passes st + 1
   \<and> lastLoadTime (refresh e st) = dateNow e
   \<and> ensureLoaded e' (refresh e st)
       = (if agentCache (refresh e st) = [] \<or> dateNow e' - dateNow e > 60000
          then loadAgents e' (refresh e st) else refresh e st)"
  by (simp add: refresh_def loadAgents_ignores_lastLoadTime passes_loadAgents
        lastLoadTime_loadAgents ensureLoaded_def needsRefresh_def cacheExpiry_def)

theorem refresh_rebuilds_now_witness:
  "passes (refresh (coderEnvAt 100000) (newLoader (coderEnvAt 100000))) = 1
   \<and> lastLoadTime (refresh (coderEnvAt 100000) (newLoader (coderEnvAt 100000))) = 100000
   \<and> agentCache (refresh (coderEnvAt 100000) (newLoader (coderEnvAt 100000)))
       = [(JStr ''coder'', coderDef)]"
proof -
  let ?e = "coderEnvAt 100000"
  have p: "passes (newLoader ?e) = 0"
    by code_simp
  have d: "dateNow ?e = 100000"
    by code_simp
  have c: "agentCache (loadAgents ?e (newLoader ?e)) = [(JStr ''coder'', coderDef)]"
    by code_simp
  note r = refresh_rebuilds_now [of ?e "newLoader ?e" ?e]
  have r1: "refresh ?e (newLoader ?e) = loadAgents ?e (newLoader ?e)"
    using r by blast
  have r2: "passes (refresh ?e (newLoader ?e)) = passes (newLoader ?e) + 1"
    using r by blast
  have r3: "lastLoadTime (refresh ?e (newLoader ?e)) = dateNow ?e"
    using r by blast
  have r4: "agentCache (refresh ?e (newLoader ?e)) = [(JStr ''coder'', coderDef)]"
    using r1 c by simp
  show ?thesis
    by (simp only: r2 r3 r4 p d) simp
qed

section \<open>Unified Registry: capabilities\<close>

text \<open>
  C6, as stated: without a discovered definition of the name, the capability accessor
  returns the fixed default sequence. \<^verbatim>\<open>getAgentCapabilities\<close> asks the unified \<^verbatim>\<open>getAgent\<close>,
  which falls back to the built-in catalog: with nothing discovered, \<^verbatim>\<open>coder\<close> gets the
  capabilities of the built-in \<^verbatim>\<open>coder\<close>.
\<close>

theorem getAgentCapabilities_builtin_counterexample:
  "fst (getAgent (emptyEnvAt 100000) (JStr ''coder'')
          (customAgentLoader (ensureInitialized (emptyEnvAt 100000) (newRegistry (emptyEnvAt 100000)))))
     = None
   \<and> fst (getAgentCapabilities (emptyEnvAt 100000) (JStr ''coder'') (newRegistry (emptyEnvAt 100000)))
     = [JStr ''Code Generation'', JStr ''Implementation'', JStr ''Refactoring'', JStr ''Debugging'']
   \<and> fst (getAgentCapabilities (emptyEnvAt 100000) (JStr ''coder'') (newRegistry (emptyEnvAt 100000)))
     \<noteq> defaultCapabilities"
  by code_simp

text \<open>
  C6, amended: the capability accessor returns the capabilities of the discovered
  definition of that name when there is one, else those of the built-in agent of
  that name when there is one, else the fixed default sequence.
\<close>

theorem getAgentCapabilities_cases:
  "fst (getAgentCapabilities e nm reg)
     = (case fst (getAgent e nm (customAgentLoader (ensureInitialized e reg))) of
          Some a \<Rightarrow> capabilities a
        | None \<Rightarrow>
            (case mapGet builtInAgents nm of
               Some b \<Rightarrow> map JStr (builtInCapabilities b)
             | None \<Rightarrow> defaultCapabilities))"
  by (simp add: getAgentCapabilities_def unifiedGetAgent_def Let_def
        split: prod.splits option.splits)

theorem getAgentCapabilities_cases_witness:
  "fst (getAgentCapabilities (coderEnvAt 100000) (JStr ''coder'') (newRegistry (coderEnvAt 100000)))
     = capabilities coderDef
   \<and> fst (getAgentCapabilities (coderEnvAt 100000) (JStr ''tester'') (newRegistry (coderEnvAt 100000)))
     = [JStr ''Testing'', JStr ''Validation'', JStr ''Quality Assurance'', JStr ''Performance Testing'']
   \<and> fst (getAgentCapabilities (coderEnvAt 100000) (JStr ''nobody'') (newRegistry (coderEnvAt 100000)))
     = defaultCapabilities"
proof -
  let ?e = "coderEnvAt 100000"
  let ?st = "customAgentLoader (ensureInitialized ?e (newRegistry ?e))"
  have g: "fst (getAgent ?e (JStr ''coder'') ?st) = Some coderDef"
          "fst (getAgent ?e (JStr ''tester'') ?st) = None"
          "fst (getAgent ?e (JStr ''nobody'') ?st) = None"
    by code_simp+
  have b: "map_option builtInCapabilities (mapGet builtInAgents (JStr ''tester''))
             = Some [''Testing'', ''Validation'', ''Quality Assurance'', ''Performance Testing'']"
          "mapGet builtInAgents (JStr ''nobody'') = None"
    by code_simp+
  show ?thesis
    using g b
      getAgentCapabilities_cases [of ?e "JStr ''coder''" "newRegistry ?e"]
      getAgentCapabilities_cases [of ?e "JStr ''tester''" "newRegistry ?e"]
      getAgentCapabilities_cases [of ?e "JStr ''nobody''" "newRegistry ?e"]
    by (auto split: option.splits)
qed

section \<open>Agent Registry: uniqueness and override precedence\<close>





section \<open>Agent Registry: two custom files of the same name\<close>

text \<open>
  C9: a custom definition always overwrites the entry of its name, whatever that
  entry is (first conjunct, one step of the loop). Within one discovery pass, when
  two definitions \<open>a\<close> and \<open>b\<close> with \<^verbatim>\<open>isCustom = true\<close> resolve to the same name, \<open>b\<close> is
  processed after \<open>a\<close>, and no later custom definition has that name, the snapshot
  holds \<open>b\<close> under that name: the last-encountered custom file wins.
\<close>

theorem storeAgent_last_custom_wins:
  "(isCustom b \<and> sameValueZero (name b) n \<longrightarrow> mapGet (storeAgent b c) n = Some b)
   \<and> (discovered e = xs @ a # ys @ b # zs \<and> isCustom a \<and> isCustom b
        \<and> sameValueZero (name a) (name b)
        \<and> (\<forall>w\<in>set zs. isCustom w \<longrightarrow> \<not> sameValueZero (name w) (name b))
      \<longrightarrow> mapGet (agentCache (loadAgents e st)) (name a) = Some b)"
proof (intro conjI impI)
  assume "isCustom b \<and> sameValueZero (name b) n"
  then show "mapGet (storeAgent b c) n = Some b"
    by (simp add: mapGet_storeAgent)
next
  assume h: "discovered e = xs @ a # ys @ b # zs \<and> isCustom a \<and> isCustom b
        \<and> sameValueZero (name a) (name b)
        \<and> (\<forall>w\<in>set zs. isCustom w \<longrightarrow> \<not> sameValueZero (name w) (name b))"
  then have eq: "name a = name b" and prim: "sameValueZero (name b) (name b)"
    by (auto simp: sameValueZero_def)
  have d: "discovered e = (xs @ a # ys) @ b # zs"
    using h by simp
  from h have last: "\<forall>w\<in>set zs. isCustom w \<longrightarrow> \<not> sameValueZero (name w) (name b)"
    by blast
  from h have bc: "isCustom b"
    by blast
  have "mapGet (foldl (\<lambda>c a. storeAgent a c) [] ((xs @ a # ys) @ b # zs)) (name b) = Some b"
    using bc prim last by (rule mapGet_foldl_last_custom)
  then show "mapGet (agentCache (loadAgents e st)) (name a) = Some b"
    by (simp only: agentCache_loadAgents d eq)
qed


theorem storeAgent_last_custom_wins_witness:
  "discovered duplicateEnv = [] @ firstDup # [] @ secondDup # []
   \<and> isCustom firstDup \<and> isCustom secondDup
   \<and> sameValueZero (name firstDup) (name secondDup)
   \<and> mapGet (agentCache (loadAgents duplicateEnv (newLoader duplicateEnv))) (JStr ''dup'')
       = Some secondDup"
proof -
  have d: "discovered duplicateEnv = [] @ firstDup # [] @ secondDup # []"
    by code_simp
  have c: "isCustom firstDup" "isCustom secondDup" "sameValueZero (name firstDup) (name secondDup)"
    by code_simp+
  have n: "name firstDup = JStr ''dup''"
    by code_simp
  have "mapGet (agentCache (loadAgents duplicateEnv (newLoader duplicateEnv))) (name firstDup)
          = Some secondDup"
    using storeAgent_last_custom_wins [of secondDup "name secondDup" "[]" duplicateEnv "[]"
            firstDup "[]" "[]" "newLoader duplicateEnv"] d c
    by simp
  then show ?thesis
    using d c by (simp add: n)
qed

section \<open>Unified Registry: a built-in shadowed by a discovered definition\<close>




section \<open>Per-file validation: category and origin\<close>




end
